theory Spec2Isabelle
  imports Main "HOL-Library.Sublist"
begin

section \<open>Thrown values and programs that may throw\<close>

text \<open>
  A thrown JavaScript value: \<open>Nullish\<close> is \<^verbatim>\<open>undefined\<close> or \<^verbatim>\<open>null\<close>; any other
  value is kept with its optional \<^verbatim>\<open>message\<close> property (the only part of it the code
  reads).
\<close>

datatype error = Error "string option" | Nullish

definition TypeError :: error where
  "TypeError = Error (Some ''Cannot read property of undefined'')"

text \<open>Reading \<^verbatim>\<open>err.message\<close>: it throws when \<^verbatim>\<open>err\<close> is \<^verbatim>\<open>undefined\<close> or \<^verbatim>\<open>null\<close>.\<close>

definition message :: "error \<Rightarrow> error + string option" where
  "message err = (case err of Nullish \<Rightarrow> Inl TypeError | Error m \<Rightarrow> Inr m)"

text \<open>
  An \<^verbatim>\<open>async\<close> function over a world \<open>'w\<close>: it returns \<open>Inr\<close> its value or \<open>Inl\<close>
  the value it threw, together with the world it left behind. An awaited call runs to its
  end before the caller goes on; other callers interleave only between whole programs.
\<close>

type_synonym ('w, 'r) prog = "'w \<Rightarrow> (error + 'r) \<times> 'w"

definition returnM :: "'r \<Rightarrow> ('w, 'r) prog" where
  "returnM x w = (Inr x, w)"

definition liftM :: "error + 'r \<Rightarrow> ('w, 'r) prog" where
  "liftM r w = (r, w)"

definition bindM :: "('w, 'a) prog \<Rightarrow> ('a \<Rightarrow> ('w, 'b) prog) \<Rightarrow> ('w, 'b) prog" where
  "bindM m f w = (case m w of (Inl e, w') \<Rightarrow> (Inl e, w') | (Inr x, w') \<Rightarrow> f x w')"

text \<open>\<^verbatim>\<open>try { body } catch (error) { handler }\<close>\<close>

definition try_catch :: "('w, 'r) prog \<Rightarrow> (error \<Rightarrow> ('w, 'r) prog) \<Rightarrow> ('w, 'r) prog" where
  "try_catch body handler w =
     (case body w of (Inl e, w') \<Rightarrow> handler e w' | (Inr x, w') \<Rightarrow> (Inr x, w'))"

section \<open>The cache service\<close>

subsection \<open>Types\<close>

record 'a CacheEntry =
  data :: 'a
  timestamp :: int
  stale :: bool

record CacheOptions =
  ttl :: int
  staleWhileRevalidate :: bool

definition DEFAULT_TTL :: int where
  "DEFAULT_TTL = 5 * 60 * 1000"

definition CACHE_PREFIX :: string where
  "CACHE_PREFIX = ''@RNInterviewPrep:''"

text \<open>The options \<^verbatim>\<open>cacheWithRevalidation\<close> takes when the caller passes none.\<close>

definition default_options :: CacheOptions where
  "default_options = \<lparr>ttl = DEFAULT_TTL, staleWhileRevalidate = True\<rparr>"

text \<open>
  The injected key-value store (AsyncStorage) over its contents \<open>'st\<close>. Every
  operation may throw; what it does is a parameter of the model.
\<close>

record 'st AsyncStorage =
  getItem :: "'st \<Rightarrow> string \<Rightarrow> error + string option"
  setItem :: "'st \<Rightarrow> string \<Rightarrow> string \<Rightarrow> error + 'st"
  removeItem :: "'st \<Rightarrow> string \<Rightarrow> error + 'st"
  getAllKeys :: "'st \<Rightarrow> error + string list"
  multiRemove :: "'st \<Rightarrow> string list \<Rightarrow> error + 'st"

text \<open>
  \<^verbatim>\<open>JSON.stringify\<close> and \<^verbatim>\<open>JSON.parse\<close> on cache entries. Both may throw; a
  payload may parse to \<^verbatim>\<open>null\<close> (\<open>None\<close>).
\<close>

record 'a JSON =
  stringify :: "'a CacheEntry \<Rightarrow> error + string"
  parse :: "string \<Rightarrow> error + 'a CacheEntry option"

text \<open>
  The caller-supplied \<^verbatim>\<open>fetchFn\<close>: how long its promise takes to settle and what it
  settles to.
\<close>

record 'a fetchFn =
  latency :: nat
  outcome :: "error + 'a"

text \<open>A background refresh that was started and has not settled yet.\<close>

record 'a refresh =
  r_key :: string
  r_outcome :: "error + 'a"
  r_ttl :: int

text \<open>
  The world the cache code runs in: the store's contents, \<^verbatim>\<open>Date.now()\<close>, the lines
  written with \<^verbatim>\<open>console.error\<close>, the keys for which a fetch function was invoked (one
  entry per invocation), and the background refreshes still outstanding.
\<close>

record ('st, 'a) world =
  store :: 'st
  clock :: int
  console :: "string list"
  fetches :: "string list"
  inflight :: "'a refresh list"

subsection \<open>Effects\<close>

definition getItemM :: "'st AsyncStorage \<Rightarrow> string \<Rightarrow> (('st, 'a) world, string option) prog" where
  "getItemM S k w = (getItem S (store w) k, w)"

definition setItemM :: "'st AsyncStorage \<Rightarrow> string \<Rightarrow> string \<Rightarrow> (('st, 'a) world, unit) prog" where
  "setItemM S k v w =
     (case setItem S (store w) k v of
        Inl e \<Rightarrow> (Inl e, w)
      | Inr st \<Rightarrow> (Inr (), w\<lparr>store := st\<rparr>))"

definition removeItemM :: "'st AsyncStorage \<Rightarrow> string \<Rightarrow> (('st, 'a) world, unit) prog" where
  "removeItemM S k w =
     (case removeItem S (store w) k of
        Inl e \<Rightarrow> (Inl e, w)
      | Inr st \<Rightarrow> (Inr (), w\<lparr>store := st\<rparr>))"

definition getAllKeysM :: "'st AsyncStorage \<Rightarrow> (('st, 'a) world, string list) prog" where
  "getAllKeysM S w = (getAllKeys S (store w), w)"

definition multiRemoveM :: "'st AsyncStorage \<Rightarrow> string list \<Rightarrow> (('st, 'a) world, unit) prog" where
  "multiRemoveM S ks w =
     (case multiRemove S (store w) ks of
        Inl e \<Rightarrow> (Inl e, w)
      | Inr st \<Rightarrow> (Inr (), w\<lparr>store := st\<rparr>))"

definition console_error :: "string \<Rightarrow> (('st, 'a) world, unit) prog" where
  "console_error line w = (Inr (), w\<lparr>console := console w @ [line]\<rparr>)"

definition Date_now :: "(('st, 'a) world, int) prog" where
  "Date_now w = (Inr (clock w), w)"

text \<open>
  \<^verbatim>\<open>await fetchFn()\<close>: the invocation is recorded, the clock moves on by the latency,
  and a rejection is thrown at the \<^verbatim>\<open>await\<close>.
\<close>

definition await_fetch :: "string \<Rightarrow> 'a fetchFn \<Rightarrow> (('st, 'a) world, 'a) prog" where
  "await_fetch key fetchFn w =
     (outcome fetchFn,
      w\<lparr>clock := clock w + int (latency fetchFn), fetches := fetches w @ [key]\<rparr>)"

text \<open>
  \<^verbatim>\<open>fetchFn().then(...).catch(...)\<close> without \<^verbatim>\<open>await\<close>: the invocation is recorded
  and the promise chain is left outstanding.
\<close>

definition spawn_refresh :: "string \<Rightarrow> 'a fetchFn \<Rightarrow> int \<Rightarrow> (('st, 'a) world, unit) prog" where
  "spawn_refresh key fetchFn t w =
     (Inr (),
      w\<lparr>fetches := fetches w @ [key],
        inflight := inflight w @ [\<lparr>r_key = key, r_outcome = outcome fetchFn, r_ttl = t\<rparr>]\<rparr>)"

subsection \<open>CacheService\<close>

definition new_entry :: "int \<Rightarrow> 'a \<Rightarrow> 'a CacheEntry" where
  "new_entry now d = \<lparr>data = d, timestamp = now, stale = False\<rparr>"

definition cache_get ::
  "'st AsyncStorage \<Rightarrow> 'a JSON \<Rightarrow> string \<Rightarrow> (('st, 'a) world, 'a CacheEntry option) prog" where
  "cache_get S J key =
     try_catch
       (bindM (getItemM S (CACHE_PREFIX @ key)) (\<lambda>cachedValue.
          case cachedValue of
            None \<Rightarrow> returnM None
          | Some v \<Rightarrow>
              if v = [] then returnM None
              else bindM (liftM (parse J v)) (\<lambda>entry. returnM entry)))
       (\<lambda>err. bindM (console_error ''Cache get error:'') (\<lambda>_. returnM None))"

definition cache_set ::
  "'st AsyncStorage \<Rightarrow> 'a JSON \<Rightarrow> string \<Rightarrow> 'a \<Rightarrow> int \<Rightarrow> (('st, 'a) world, unit) prog" where
  "cache_set S J key d t =
     try_catch
       (bindM Date_now (\<lambda>now.
          bindM (liftM (stringify J (new_entry now d))) (\<lambda>text.
            setItemM S (CACHE_PREFIX @ key) text)))
       (\<lambda>err. console_error ''Cache set error:'')"

definition cache_isStale :: "int \<Rightarrow> 'a CacheEntry \<Rightarrow> int \<Rightarrow> bool" where
  "cache_isStale now entry t = (now - timestamp entry > t)"

definition cache_remove :: "'st AsyncStorage \<Rightarrow> string \<Rightarrow> (('st, 'a) world, unit) prog" where
  "cache_remove S key =
     try_catch (removeItemM S (CACHE_PREFIX @ key))
       (\<lambda>err. console_error ''Cache remove error:'')"

definition cache_clear :: "'st AsyncStorage \<Rightarrow> (('st, 'a) world, unit) prog" where
  "cache_clear S =
     try_catch
       (bindM (getAllKeysM S) (\<lambda>keys.
          multiRemoveM S (filter (\<lambda>key. prefix CACHE_PREFIX key) keys)))
       (\<lambda>err. console_error ''Cache clear error:'')"

subsection \<open>Stale-while-revalidate\<close>

text \<open>
  The object \<^verbatim>\<open>{ data, isStale }\<close> that \<^verbatim>\<open>cacheWithRevalidation\<close> resolves to. The
  fetch function is taken to return a promise (it does not throw before returning one).
\<close>

record 'a revalidated =
  rv_data :: 'a
  rv_isStale :: bool

definition cacheWithRevalidation ::
  "'st AsyncStorage \<Rightarrow> 'a JSON \<Rightarrow> string \<Rightarrow> 'a fetchFn \<Rightarrow> CacheOptions
     \<Rightarrow> (('st, 'a) world, 'a revalidated) prog" where
  "cacheWithRevalidation S J key fetchFn options =
     bindM (cache_get S J key) (\<lambda>cached.
       case cached of
         None \<Rightarrow>
           bindM (await_fetch key fetchFn) (\<lambda>d.
             bindM (cache_set S J key d (ttl options)) (\<lambda>_.
               returnM \<lparr>rv_data = d, rv_isStale = False\<rparr>))
       | Some c \<Rightarrow>
           bindM Date_now (\<lambda>now.
             let isStale = cache_isStale now c (ttl options) in
             if isStale \<and> staleWhileRevalidate options then
               bindM (spawn_refresh key fetchFn (ttl options)) (\<lambda>_.
                 returnM \<lparr>rv_data = data c, rv_isStale = True\<rparr>)
             else if \<not> isStale then
               returnM \<lparr>rv_data = data c, rv_isStale = False\<rparr>
             else
               bindM (await_fetch key fetchFn) (\<lambda>freshData.
                 bindM (cache_set S J key freshData (ttl options)) (\<lambda>_.
                   returnM \<lparr>rv_data = freshData, rv_isStale = False\<rparr>))))"

text \<open>
  The \<open>i\<close>-th outstanding background refresh settles:
  \<^verbatim>\<open>.then(freshData => cache.set(key, freshData, options.ttl)).catch(err => console.error(...))\<close>.
\<close>

definition settle_refresh ::
  "'st AsyncStorage \<Rightarrow> 'a JSON \<Rightarrow> nat \<Rightarrow> ('st, 'a) world \<Rightarrow> ('st, 'a) world" where
  "settle_refresh S J i w =
     (if i < length (inflight w) then
        let r = inflight w ! i;
            w1 = w\<lparr>inflight := take i (inflight w) @ drop (Suc i) (inflight w)\<rparr>
        in snd (try_catch
                  (bindM (liftM (r_outcome r)) (\<lambda>freshData.
                     cache_set S J (r_key r) freshData (r_ttl r)))
                  (\<lambda>err. console_error ''Background revalidation failed:'') w1)
      else w)"

text \<open>Wall-clock time passing between calls.\<close>

definition advance :: "nat \<Rightarrow> ('st, 'a) world \<Rightarrow> ('st, 'a) world" where
  "advance d w = w\<lparr>clock := clock w + int d\<rparr>"

text \<open>The number of outstanding background refreshes for a key.\<close>

definition inflight_for :: "string \<Rightarrow> ('st, 'a) world \<Rightarrow> nat" where
  "inflight_for key w = length (filter (\<lambda>r. r_key r = key) (inflight w))"

subsection \<open>A store and a codec to run the code on\<close>

text \<open>
  An in-memory key-value store whose operations always succeed, as an association list.
\<close>

definition memory_storage :: "(string \<times> string) list AsyncStorage" where
  "memory_storage =
     \<lparr>getItem = (\<lambda>st k. Inr (map_of st k)),
      setItem = (\<lambda>st k v. Inr ((k, v) # filter (\<lambda>p. fst p \<noteq> k) st)),
      removeItem = (\<lambda>st k. Inr (filter (\<lambda>p. fst p \<noteq> k) st)),
      getAllKeys = (\<lambda>st. Inr (map fst st)),
      multiRemove = (\<lambda>st ks. Inr (filter (\<lambda>p. \<not> List.member ks (fst p)) st))\<rparr>"

text \<open>A store in which every operation throws.\<close>

definition broken_storage :: "unit AsyncStorage" where
  "broken_storage =
     \<lparr>getItem = (\<lambda>st k. Inl (Error (Some ''storage unavailable''))),
      setItem = (\<lambda>st k v. Inl (Error (Some ''storage unavailable''))),
      removeItem = (\<lambda>st k. Inl (Error (Some ''storage unavailable''))),
      getAllKeys = (\<lambda>st. Inl (Error (Some ''storage unavailable''))),
      multiRemove = (\<lambda>st ks. Inl (Error (Some ''storage unavailable'')))\<rparr>"

text \<open>
  JSON text of cache entries whose data is a natural number, as
  \<^verbatim>\<open>{"data":7,"timestamp":1000,"stale":false}\<close>.
\<close>

definition digits :: string where
  "digits = ''0123456789''"

text \<open>Called with \<open>d < 10\<close> only.\<close>

definition digit_char :: "nat \<Rightarrow> char" where
  "digit_char d = digits ! d"

definition digit_val :: "char \<Rightarrow> nat option" where
  "digit_val c = map_of (zip digits [0, 1, 2, 3, 4, 5, 6, 7, 8, 9]) c"

fun show_nat :: "nat \<Rightarrow> string" where
  "show_nat n =
     (if n < 10 then [digit_char n] else show_nat (n div 10) @ [digit_char (n mod 10)])"

declare show_nat.simps [simp del]

definition show_int :: "int \<Rightarrow> string" where
  "show_int i = (if i < 0 then CHR ''-'' # show_nat (nat (- i)) else show_nat (nat i))"

fun read_digits :: "nat \<Rightarrow> string \<Rightarrow> nat \<times> string" where
  "read_digits acc [] = (acc, [])"
| "read_digits acc (c # cs) =
     (case digit_val c of
        None \<Rightarrow> (acc, c # cs)
      | Some d \<Rightarrow> read_digits (10 * acc + d) cs)"

definition read_nat :: "string \<Rightarrow> (nat \<times> string) option" where
  "read_nat s =
     (case s of
        [] \<Rightarrow> None
      | c # cs \<Rightarrow> (case digit_val c of None \<Rightarrow> None | Some d \<Rightarrow> Some (read_digits d cs)))"

definition read_int :: "string \<Rightarrow> (int \<times> string) option" where
  "read_int s =
     (case s of
        [] \<Rightarrow> None
      | c # cs \<Rightarrow>
          if c = CHR ''-'' then map_option (\<lambda>(n, r). (- int n, r)) (read_nat cs)
          else map_option (\<lambda>(n, r). (int n, r)) (read_nat s))"

definition expect :: "string \<Rightarrow> string \<Rightarrow> string option" where
  "expect p s = (if prefix p s then Some (drop (length p) s) else None)"

definition SyntaxError :: error where
  "SyntaxError = Error (Some ''JSON Parse error'')"

definition nat_stringify :: "nat CacheEntry \<Rightarrow> error + string" where
  "nat_stringify e =
     Inr (''{'' @ [CHR 0x22] @ ''data'' @ [CHR 0x22] @ '':'' @ show_nat (data e) @
          '','' @ [CHR 0x22] @ ''timestamp'' @ [CHR 0x22] @ '':'' @ show_int (timestamp e) @
          '','' @ [CHR 0x22] @ ''stale'' @ [CHR 0x22] @ '':'' @
          (if stale e then ''true'' else ''false'') @ ''}'')"

definition nat_parse :: "string \<Rightarrow> error + nat CacheEntry option" where
  "nat_parse s =
     (if s = ''null'' then Inr None
      else
        case expect (''{'' @ [CHR 0x22] @ ''data'' @ [CHR 0x22] @ '':'') s of
          None \<Rightarrow> Inl SyntaxError
        | Some s1 \<Rightarrow>
            (case read_nat s1 of
               None \<Rightarrow> Inl SyntaxError
             | Some (d, s2) \<Rightarrow>
                 (case expect ('','' @ [CHR 0x22] @ ''timestamp'' @ [CHR 0x22] @ '':'') s2 of
                    None \<Rightarrow> Inl SyntaxError
                  | Some s3 \<Rightarrow>
                      (case read_int s3 of
                         None \<Rightarrow> Inl SyntaxError
                       | Some (t, s4) \<Rightarrow>
                           if s4 = '','' @ [CHR 0x22] @ ''stale'' @ [CHR 0x22] @ '':false}''
                           then Inr (Some \<lparr>data = d, timestamp = t, stale = False\<rparr>)
                           else if s4 = '','' @ [CHR 0x22] @ ''stale'' @ [CHR 0x22] @ '':true}''
                           then Inr (Some \<lparr>data = d, timestamp = t, stale = True\<rparr>)
                           else Inl SyntaxError))))"

definition nat_JSON :: "nat JSON" where
  "nat_JSON = \<lparr>stringify = nat_stringify, parse = nat_parse\<rparr>"

definition empty_world :: "int \<Rightarrow> ((string \<times> string) list, nat) world" where
  "empty_world now = \<lparr>store = [], clock = now, console = [], fetches = [], inflight = []\<rparr>"

text \<open>Callers that invoke the coordinator for one key one after the other, none of them
  waiting for a background refresh to settle.\<close>

fun revalidate_calls ::
  "'st AsyncStorage \<Rightarrow> 'a JSON \<Rightarrow> string \<Rightarrow> CacheOptions \<Rightarrow> 'a fetchFn list
     \<Rightarrow> ('st, 'a) world \<Rightarrow> ('st, 'a) world" where
  "revalidate_calls S J key options [] w = w"
| "revalidate_calls S J key options (f # fs) w =
     revalidate_calls S J key options fs (snd (cacheWithRevalidation S J key f options w))"

text \<open>
  A world in which \<^verbatim>\<open>cache.set('posts', 1, 60000)\<close> ran at time 0 and 100 seconds have
  passed since.
\<close>

definition posts_world :: "((string \<times> string) list, nat) world" where
  "posts_world =
     advance 100000 (snd (cache_set memory_storage nat_JSON ''posts'' 1 60000 (empty_world 0)))"

definition swr_options :: CacheOptions where
  "swr_options = \<lparr>ttl = 60000, staleWhileRevalidate = True\<rparr>"

definition fetch_posts :: "nat fetchFn" where
  "fetch_posts = \<lparr>latency = 800, outcome = Inr 2\<rparr>"

text \<open>A store that holds a payload which is not JSON under the key \<^verbatim>\<open>posts\<close>.\<close>

definition garbage_world :: "((string \<times> string) list, nat) world" where
  "garbage_world =
     \<lparr>store = [(CACHE_PREFIX @ ''posts'', ''<html>'')], clock = 0, console = [],
      fetches = [], inflight = []\<rparr>"

definition broken_world :: "(unit, nat) world" where
  "broken_world = \<lparr>store = (), clock = 0, console = [], fetches = [], inflight = []\<rparr>"

text \<open>The JSON text of the entry \<^verbatim>\<open>{data: 1, timestamp: 5000, stale: false}\<close>.\<close>

definition entry_text_5000 :: string where
  "entry_text_5000 =
     ''{'' @ [CHR 0x22] @ ''data'' @ [CHR 0x22] @ '':1,'' @ [CHR 0x22] @ ''timestamp'' @
     [CHR 0x22] @ '':5000,'' @ [CHR 0x22] @ ''stale'' @ [CHR 0x22] @ '':false}''"

section \<open>Pagination\<close>

text \<open>\<^verbatim>\<open>value || fallback\<close> on an optional string: absent and empty are both falsy.\<close>

definition or_default :: "string option \<Rightarrow> string \<Rightarrow> string" where
  "or_default v fallback =
     (case v of None \<Rightarrow> fallback | Some s \<Rightarrow> if s = [] then fallback else s)"

subsection \<open>The usePagination hook\<close>

record 'a PaginatedResponse =
  response_data :: "'a list"
  response_page :: int
  response_pageSize :: int
  response_total :: int
  response_hasMore :: bool

text \<open>
  The hook's React state (\<open>h_data\<close> for \<^verbatim>\<open>data\<close>, and so on), its ref
  \<^verbatim>\<open>isLoadingRef.current\<close>, the page numbers \<^verbatim>\<open>fetchFn\<close> was invoked with (one entry per
  invocation), and the \<^verbatim>\<open>loadPage\<close> calls suspended at their \<^verbatim>\<open>await\<close> with their
  arguments \<^verbatim>\<open>(pageNum, isRefresh)\<close>.
\<close>

record 'a pagination =
  h_data :: "'a list"
  h_page :: int
  h_isLoading :: bool
  h_isRefreshing :: bool
  h_hasMore :: bool
  h_error :: "string option"
  isLoadingRef :: bool
  fetchCalls :: "int list"
  suspended :: "(int \<times> bool) list"

definition usePagination_initial :: "'a pagination" where
  "usePagination_initial =
     \<lparr>h_data = [], h_page = 1, h_isLoading = False, h_isRefreshing = False, h_hasMore = True,
      h_error = None, isLoadingRef = False, fetchCalls = [], suspended = []\<rparr>"

text \<open>\<^verbatim>\<open>loadPage\<close> from its entry to the \<^verbatim>\<open>await fetchFn(pageNum)\<close>.\<close>

definition loadPage_start :: "int \<Rightarrow> bool \<Rightarrow> 'a pagination \<Rightarrow> 'a pagination" where
  "loadPage_start pageNum isRefresh s =
     (if isLoadingRef s then s
      else
        let s1 = s\<lparr>isLoadingRef := True\<rparr>;
            s2 = (if isRefresh then s1\<lparr>h_isRefreshing := True\<rparr> else s1\<lparr>h_isLoading := True\<rparr>);
            s3 = s2\<lparr>h_error := None\<rparr>
        in s3\<lparr>fetchCalls := fetchCalls s3 @ [pageNum],
              suspended := suspended s3 @ [(pageNum, isRefresh)]\<rparr>)"

text \<open>
  \<^verbatim>\<open>loadPage\<close> after the \<^verbatim>\<open>await\<close>: the \<^verbatim>\<open>try\<close> body on a response, the \<^verbatim>\<open>catch\<close>
  on a rejection, then the \<^verbatim>\<open>finally\<close> block. When reading \<^verbatim>\<open>err.message\<close> throws
  inside the \<^verbatim>\<open>catch\<close>, \<^verbatim>\<open>setError\<close> is not reached; the \<^verbatim>\<open>finally\<close> block runs all the
  same.
\<close>

definition loadPage_settle ::
  "int \<Rightarrow> bool \<Rightarrow> error + 'a PaginatedResponse \<Rightarrow> 'a pagination \<Rightarrow> 'a pagination" where
  "loadPage_settle pageNum isRefresh result s =
     (let s1 =
        (case result of
           Inr response \<Rightarrow>
             s\<lparr>h_data := (if isRefresh then response_data response
                          else h_data s @ response_data response),
               h_hasMore := response_hasMore response,
               h_page := pageNum\<rparr>
         | Inl err \<Rightarrow>
             (case message err of
                Inl thrown \<Rightarrow> s
              | Inr m \<Rightarrow> s\<lparr>h_error := Some (or_default m ''Failed to load data'')\<rparr>))
      in s1\<lparr>h_isLoading := False, h_isRefreshing := False, isLoadingRef := False\<rparr>)"

text \<open>
  \<^verbatim>\<open>loadMore\<close> reads \<^verbatim>\<open>isLoading\<close>, \<^verbatim>\<open>hasMore\<close> and \<^verbatim>\<open>page\<close> from the render in which
  the callback was created (\<open>rendered\<close>), which may be older than the current state.
\<close>

definition loadMore :: "'a pagination \<Rightarrow> 'a pagination \<Rightarrow> 'a pagination" where
  "loadMore rendered s =
     (if \<not> h_isLoading rendered \<and> h_hasMore rendered
      then loadPage_start (h_page rendered + 1) False s
      else s)"

definition refresh :: "'a pagination \<Rightarrow> 'a pagination" where
  "refresh s = loadPage_start 1 True s"

text \<open>
  What can happen to a mounted hook: the user triggers \<^verbatim>\<open>loadMore\<close> (from some render) or
  \<^verbatim>\<open>refresh\<close>, or the oldest suspended \<^verbatim>\<open>loadPage\<close> call gets its answer.
\<close>

datatype 'a hook_event =
  LoadMore "'a pagination"
  | Refresh
  | Settled "error + 'a PaginatedResponse"

fun hook_step :: "'a pagination \<Rightarrow> 'a hook_event \<Rightarrow> 'a pagination" where
  "hook_step s (LoadMore rendered) = loadMore rendered s"
| "hook_step s Refresh = refresh s"
| "hook_step s (Settled result) =
     (case suspended s of
        [] \<Rightarrow> s
      | (pageNum, isRefresh) # rest \<Rightarrow>
          loadPage_settle pageNum isRefresh result (s\<lparr>suspended := rest\<rparr>))"

text \<open>The hook after its mount effect \<^verbatim>\<open>loadPage(1, false)\<close> and a run of events.\<close>

definition hook_run :: "'a hook_event list \<Rightarrow> 'a pagination" where
  "hook_run events = foldl hook_step (loadPage_start 1 False usePagination_initial) events"

text \<open>The ref is set exactly while one call is suspended, and never more than one is.\<close>

definition one_load :: "'a pagination \<Rightarrow> bool" where
  "one_load s = ((isLoadingRef s \<and> length (suspended s) = 1) \<or>
                 (\<not> isLoadingRef s \<and> suspended s = []))"

subsection \<open>The products slice\<close>

text \<open>
  A product; the reducers read its \<^verbatim>\<open>id\<close> only. The remaining fields of the source
  (price, description, image, rating) travel in the record's extension.
\<close>

record Product =
  product_id :: int
  title :: string
  category :: string

record 'p ProductsState =
  items :: "'p list"
  loading :: bool
  isRefreshing :: bool
  error :: "string option"
  page :: int
  limit :: int
  hasMore :: bool
  isFetchingMore :: bool
  searchQuery :: string
  selectedCategory :: string
  minPrice :: int
  maxPrice :: int

definition initialState :: "'p ProductsState" where
  "initialState =
     \<lparr>items = [], loading = False, isRefreshing = False, error = None, page = 0, limit = 10,
      hasMore = True, isFetchingMore = False, searchQuery = [], selectedCategory = [],
      minPrice = 0, maxPrice = 10000\<rparr>"


definition fetchProducts_fulfilled ::
  "int \<Rightarrow> 'z Product_scheme list \<Rightarrow> ('z Product_scheme) ProductsState
     \<Rightarrow> ('z Product_scheme) ProductsState" where
  "fetchProducts_fulfilled argPage payload s =
     (let s1 = s\<lparr>loading := False, isRefreshing := False, isFetchingMore := False,
                 error := None\<rparr>;
          isRefresh = (argPage = 0 \<and> length (items s1) > 0);
          isInitialLoad = (argPage = 0 \<and> length (items s1) = 0);
          s2 =
            (if isRefresh \<or> isInitialLoad then s1\<lparr>items := payload, page := 1\<rparr>
             else
               let existingIds = set (map product_id (items s1));
                   newItems = filter (\<lambda>item. product_id item \<notin> existingIds) payload
               in s1\<lparr>items := items s1 @ newItems, page := argPage + 1\<rparr>)
      in s2\<lparr>hasMore := (int (length payload) = limit s2)\<rparr>)"


subsection \<open>The fetchProducts thunk\<close>








text \<open>Products \<^verbatim>\<open>{id: n}\<close> to run the reducers and the hook on.\<close>

definition product :: "int \<Rightarrow> Product" where
  "product n = \<lparr>product_id = n, title = [], category = []\<rparr>"

definition page_of :: "Product list \<Rightarrow> bool \<Rightarrow> Product PaginatedResponse" where
  "page_of xs more_pages =
     \<lparr>response_data = xs, response_page = 2, response_pageSize = 2, response_total = 4,
      response_hasMore = more_pages\<rparr>"




section \<open>The promise pool\<close>

text \<open>
  A task factory of \<^verbatim>\<open>promiseFns\<close>: the promise it returns settles in a timer callback
  \<open>task_duration\<close> time units after the task was started, to \<open>task_result\<close> (\<open>Inl\<close> for
  a rejection).
\<close>

record 'a task =
  task_duration :: nat
  task_result :: "error + 'a"

text \<open>
  The promise built for the task at \<open>p_index\<close>: when its task was started, when it
  settles, and to what.
\<close>

record 'a promise =
  p_index :: nat
  p_started :: nat
  p_settles :: nat
  p_value :: "error + 'a"

text \<open>
  Promises that settle at the same time settle one callback after the other, in index
  order, and code that waits for one of them resumes before the next one settles. So a
  moment of the run is a time \<open>t\<close> together with a rank \<open>k\<close>: of the promises that settle
  at \<open>t\<close>, those with an index below \<open>k\<close> have settled.
\<close>

definition settled_at :: "nat \<Rightarrow> nat \<Rightarrow> 'a promise \<Rightarrow> bool" where
  "settled_at t k p = (p_settles p < t \<or> (p_settles p = t \<and> p_index p < k))"

text \<open>The moment at which code that waits for \<open>p\<close> from the moment \<open>(t, k)\<close> on resumes.\<close>

definition seen_at :: "nat \<Rightarrow> nat \<Rightarrow> 'a promise \<Rightarrow> nat \<times> nat" where
  "seen_at t k p = (if settled_at t k p then (t, k) else (p_settles p, Suc (p_index p)))"

definition moment_le :: "nat \<times> nat \<Rightarrow> nat \<times> nat \<Rightarrow> bool" where
  "moment_le a b = (fst a < fst b \<or> (fst a = fst b \<and> snd a \<le> snd b))"

definition moment_max :: "nat \<times> nat \<Rightarrow> nat \<times> nat \<Rightarrow> nat \<times> nat" where
  "moment_max a b = (if moment_le a b then b else a)"

text \<open>
  The loop's state: the current moment, the array \<^verbatim>\<open>executing\<close>, and every promise
  created so far in index order.
\<close>

record 'a pool_state =
  pool_time :: nat
  pool_rank :: nat
  pool_executing :: "'a promise list"
  pool_spawned :: "'a promise list"

text \<open>
  \<^verbatim>\<open>Promise.race\<close> on a non-empty array, awaited at the moment \<open>(t, k)\<close>: the promise that
  is seen settled first wins; promises already settled tie, and the earlier array position
  wins a tie.
\<close>

fun earliest :: "nat \<Rightarrow> nat \<Rightarrow> 'a promise \<Rightarrow> 'a promise list \<Rightarrow> 'a promise" where
  "earliest t k p [] = p"
| "earliest t k p (q # qs) =
     (let w = earliest t k q qs
      in if moment_le (seen_at t k p) (seen_at t k w) then p else w)"

text \<open>\<^verbatim>\<open>Array.prototype.findIndex\<close>: the first position that satisfies the test, or -1.\<close>

fun findIndex_from :: "nat \<Rightarrow> ('a \<Rightarrow> bool) \<Rightarrow> 'a list \<Rightarrow> int" where
  "findIndex_from i P [] = - 1"
| "findIndex_from i P (x # xs) = (if P x then int i else findIndex_from (Suc i) P xs)"

definition findIndex :: "('a \<Rightarrow> bool) \<Rightarrow> 'a list \<Rightarrow> int" where
  "findIndex P xs = findIndex_from 0 P xs"

text \<open>
  The array after \<^verbatim>\<open>xs.splice(start, 1)\<close>: a negative start counts from the end, a start
  beyond the end removes nothing.
\<close>

definition splice1 :: "int \<Rightarrow> 'a list \<Rightarrow> 'a list" where
  "splice1 start xs =
     (let n = int (length xs);
          from = (if start < 0 then max (n + start) 0 else min start n)
      in take (nat from) xs @ drop (Suc (nat from)) xs)"

text \<open>
  The \<^verbatim>\<open>for\<close> loop over \<^verbatim>\<open>promiseFns.entries()\<close>. Creating the promise starts the task
  at the current time. A rejected race rejects the pool at once.
\<close>

fun pool_loop ::
  "int \<Rightarrow> nat \<Rightarrow> 'a task list \<Rightarrow> 'a pool_state \<Rightarrow> (error + unit) \<times> 'a pool_state" where
  "pool_loop concurrency index [] st = (Inr (), st)"
| "pool_loop concurrency index (promiseFn # rest) st =
     (let promise = \<lparr>p_index = index, p_started = pool_time st,
                     p_settles = pool_time st + task_duration promiseFn,
                     p_value = task_result promiseFn\<rparr>;
          winner = (case pool_executing st of
                      [] \<Rightarrow> promise
                    | e # es \<Rightarrow> earliest (pool_time st) (pool_rank st) e (es @ [promise]));
          st1 = st\<lparr>pool_executing := pool_executing st @ [promise],
                  pool_spawned := pool_spawned st @ [promise]\<rparr>
      in if int (length (pool_executing st1)) \<ge> concurrency then
           (let resumed = seen_at (pool_time st1) (pool_rank st1) winner;
                st2 = st1\<lparr>pool_time := fst resumed, pool_rank := snd resumed\<rparr>
            in case p_value winner of
                 Inl err \<Rightarrow> (Inl err, st2)
               | Inr v \<Rightarrow>
                   pool_loop concurrency (Suc index) rest
                     (st2\<lparr>pool_executing :=
                            splice1 (findIndex (\<lambda>p. p_index p = index) (pool_executing st2))
                              (pool_executing st2)\<rparr>))
         else pool_loop concurrency (Suc index) rest st1)"

text \<open>
  \<^verbatim>\<open>await Promise.all(executing)\<close> at the moment \<open>(t, k)\<close>: rejected as soon as one
  promise is seen rejected, else fulfilled once all are settled.
\<close>

definition await_all :: "nat \<Rightarrow> nat \<Rightarrow> 'a promise list \<Rightarrow> (error + unit) \<times> nat \<times> nat" where
  "await_all t k ps =
     (case filter (\<lambda>p. isl (p_value p)) ps of
        [] \<Rightarrow> (Inr (), fold moment_max (map (seen_at t k) ps) (t, k))
      | r # rs \<Rightarrow>
          (let w = earliest t k r rs in
           (case p_value w of Inl err \<Rightarrow> Inl err | Inr v \<Rightarrow> Inr (), seen_at t k w)))"

text \<open>
  A JavaScript array written by index: \<open>None\<close> is a hole, and the length is one more than
  the last index written.
\<close>

fun trim_holes :: "'a option list \<Rightarrow> 'a option list" where
  "trim_holes [] = []"
| "trim_holes (x # xs) =
     (case trim_holes xs of
        [] \<Rightarrow> (case x of None \<Rightarrow> [] | Some v \<Rightarrow> [Some v])
      | y # ys \<Rightarrow> x # y # ys)"

text \<open>
  The array \<^verbatim>\<open>results\<close> at the moment \<open>(t, k)\<close>: \<^verbatim>\<open>results[index] = result\<close> has run
  for the tasks fulfilled by then.
\<close>

definition results_at :: "nat \<Rightarrow> nat \<Rightarrow> 'a promise list \<Rightarrow> 'a option list" where
  "results_at t k ps =
     trim_holes
       (map (\<lambda>p. case p_value p of
                   Inl err \<Rightarrow> None
                 | Inr v \<Rightarrow> if settled_at t k p then Some v else None) ps)"

text \<open>
  What a call of \<^verbatim>\<open>promisePool\<close> does: the time at which its promise settles, to what (the
  array \<^verbatim>\<open>results\<close> as it is at that moment, or the rejection), and the promises it
  created.
\<close>

record 'a pool_run =
  returned_at :: nat
  returned :: "error + 'a option list"
  created :: "'a promise list"

definition promisePool :: "'a task list \<Rightarrow> int \<Rightarrow> 'a pool_run" where
  "promisePool promiseFns concurrency =
     (case pool_loop concurrency 0 promiseFns
             \<lparr>pool_time = 0, pool_rank = 0, pool_executing = [], pool_spawned = []\<rparr> of
        (Inl err, st) \<Rightarrow>
          \<lparr>returned_at = pool_time st, returned = Inl err, created = pool_spawned st\<rparr>
      | (Inr u, st) \<Rightarrow>
          (case await_all (pool_time st) (pool_rank st) (pool_executing st) of
             (Inl err, t, k) \<Rightarrow>
               \<lparr>returned_at = t, returned = Inl err, created = pool_spawned st\<rparr>
           | (Inr u', t, k) \<Rightarrow>
               \<lparr>returned_at = t, returned = Inr (results_at t k (pool_spawned st)),
                created = pool_spawned st\<rparr>))"

text \<open>The tasks started and not yet settled at instant \<open>t\<close>.\<close>

definition running_at :: "nat \<Rightarrow> 'a promise list \<Rightarrow> nat" where
  "running_at t ps = length (filter (\<lambda>p. p_started p \<le> t \<and> t < p_settles p) ps)"

definition succeeding :: "nat \<Rightarrow> 'a \<Rightarrow> 'a task" where
  "succeeding d v = \<lparr>task_duration = d, task_result = Inr v\<rparr>"

text \<open>The promises of tasks that are all started at time \<open>t\<close>, numbered from \<open>i\<close>.\<close>

fun start_all :: "nat \<Rightarrow> nat \<Rightarrow> 'a task list \<Rightarrow> 'a promise list" where
  "start_all t i [] = []"
| "start_all t i (x # xs) =
     \<lparr>p_index = i, p_started = t, p_settles = t + task_duration x, p_value = task_result x\<rparr>
       # start_all t (Suc i) xs"

section \<open>Properties of the cache service\<close>

lemmas prog_defs = returnM_def liftM_def bindM_def try_catch_def

lemmas effect_defs = getItemM_def setItemM_def removeItemM_def getAllKeysM_def
  multiRemoveM_def console_error_def Date_now_def await_fetch_def spawn_refresh_def

lemmas codec_defs = nat_JSON_def nat_stringify_def nat_parse_def expect_def read_nat_def
  read_int_def digit_val_def digit_char_def digits_def show_int_def SyntaxError_def

lemmas fixture_defs = memory_storage_def broken_storage_def empty_world_def CACHE_PREFIX_def

subsection \<open>What each method returns\<close>

lemma cache_get_result:
  "fst (cache_get S J key w) =
     Inr (case getItem S (store w) (CACHE_PREFIX @ key) of
            Inl e \<Rightarrow> None
          | Inr None \<Rightarrow> None
          | Inr (Some v) \<Rightarrow>
              if v = [] then None else (case parse J v of Inl e \<Rightarrow> None | Inr entry \<Rightarrow> entry))"
  by (simp add: cache_get_def prog_defs effect_defs split: sum.split option.split)

lemma cache_get_hit_world:
  "fst (cache_get S J key w) = Inr (Some e) \<Longrightarrow> snd (cache_get S J key w) = w"
  by (auto simp add: cache_get_def prog_defs effect_defs
      split: sum.splits option.splits if_splits)

lemma cache_get_hit:
  "fst (cache_get S J key w) = Inr (Some e) \<Longrightarrow> cache_get S J key w = (Inr (Some e), w)"
  using cache_get_hit_world [of S J key w e] by (cases "cache_get S J key w") simp

lemma cache_get_store_only:
  "store w' = store w \<Longrightarrow> fst (cache_get S J key w') = fst (cache_get S J key w)"
  by (simp add: cache_get_result)

lemma cache_get_throwing_read:
  "getItem S (store w) (CACHE_PREFIX @ key) = Inl e \<Longrightarrow>
     cache_get S J key w = (Inr None, w\<lparr>console := console w @ [''Cache get error:'']\<rparr>)"
  by (simp add: cache_get_def prog_defs effect_defs)

lemma cache_set_result: "fst (cache_set S J key d t w) = Inr ()"
  by (simp add: cache_set_def prog_defs effect_defs split: sum.split)

lemma cache_set_writes:
  "stringify J (new_entry (clock w) d) = Inr text \<Longrightarrow>
   setItem S (store w) (CACHE_PREFIX @ key) text = Inr st \<Longrightarrow>
     cache_set S J key d t w = (Inr (), w\<lparr>store := st\<rparr>)"
  by (simp add: cache_set_def prog_defs effect_defs)

lemma cache_set_throwing_write:
  "stringify J (new_entry (clock w) d) = Inr text \<Longrightarrow>
   setItem S (store w) (CACHE_PREFIX @ key) text = Inl e \<Longrightarrow>
     cache_set S J key d t w = (Inr (), w\<lparr>console := console w @ [''Cache set error:'']\<rparr>)"
  by (simp add: cache_set_def prog_defs effect_defs)

lemma cache_remove_result: "fst (cache_remove S key w) = Inr ()"
  by (simp add: cache_remove_def prog_defs effect_defs split: sum.split)

lemma cache_clear_result: "fst (cache_clear S w) = Inr ()"
  by (simp add: cache_clear_def prog_defs effect_defs split: sum.split)

lemma set_then_get_example:
  "fst (cache_get memory_storage nat_JSON ''a''
          (snd (cache_set memory_storage nat_JSON ''a'' 1 1000 (empty_world 5000)))) =
     Inr (Some (new_entry 5000 1))"
  by (simp add: cache_get_result cache_set_def prog_defs effect_defs codec_defs fixture_defs
      new_entry_def show_nat.simps)

lemma posts_world_eq:
  "posts_world =
     \<lparr>store = [(CACHE_PREFIX @ ''posts'',
         ''{'' @ [CHR 0x22] @ ''data'' @ [CHR 0x22] @ '':1,'' @ [CHR 0x22] @ ''timestamp'' @
         [CHR 0x22] @ '':0,'' @ [CHR 0x22] @ ''stale'' @ [CHR 0x22] @ '':false}'')],
      clock = 100000, console = [], fetches = [], inflight = []\<rparr>"
  by (simp add: posts_world_def advance_def cache_set_def prog_defs effect_defs codec_defs
      fixture_defs new_entry_def show_nat.simps)

lemma posts_world_hit:
  "fst (cache_get memory_storage nat_JSON ''posts'' posts_world) = Inr (Some (new_entry 0 1))"
  by (simp add: posts_world_eq cache_get_result memory_storage_def codec_defs new_entry_def
      CACHE_PREFIX_def)

subsection \<open>Staleness\<close>

text \<open>
  Claim C5. \<^verbatim>\<open>isStale(entry, ttl)\<close> is exactly \<open>now - entry.timestamp > ttl\<close>, with a
  strict comparison. The entry that \<^verbatim>\<open>set\<close> writes at clock \<open>c\<close> is not stale at \<open>c\<close>
  for any \<open>ttl \<ge> 0\<close> (also \<open>ttl = 0\<close>), and at a later clock \<open>c'\<close> it is stale exactly
  when the elapsed time \<open>c' - c\<close> exceeds the ttl. \<^verbatim>\<open>isStale\<close> is a function of the
  clock, the entry and the ttl only. The last part says that \<^verbatim>\<open>set\<close> stores the text of
  the entry stamped with the current clock.
\<close>

theorem isStale_strictly_after_ttl:
  "(cache_isStale now e t \<longleftrightarrow> now - timestamp e > t) \<and>
   (0 \<le> t \<longrightarrow> \<not> cache_isStale c (new_entry c d) t) \<and>
   (cache_isStale c' (new_entry c d) t \<longleftrightarrow> c' - c > t) \<and>
   (\<forall>text st. stringify J (new_entry (clock w) d) = Inr text \<and>
        setItem S (store w) (CACHE_PREFIX @ key) text = Inr st \<longrightarrow>
        cache_set S J key d t w = (Inr (), w\<lparr>store := st\<rparr>))"
  by (simp add: cache_isStale_def new_entry_def cache_set_def prog_defs effect_defs)

theorem isStale_strictly_after_ttl_witness:
  "(0::int) \<le> 1000 \<and>
   \<not> cache_isStale 5000 (new_entry 5000 (1::nat)) 1000 \<and>
   \<not> cache_isStale 5000 (new_entry 5000 (1::nat)) 0 \<and>
   \<not> cache_isStale 6000 (new_entry 5000 (1::nat)) 1000 \<and>
   cache_isStale 6100 (new_entry 5000 (1::nat)) 1000 \<and>
   stringify nat_JSON (new_entry (clock (empty_world 5000)) 1) = Inr entry_text_5000 \<and>
   setItem memory_storage (store (empty_world 5000)) (CACHE_PREFIX @ ''a'') entry_text_5000 =
     Inr [(CACHE_PREFIX @ ''a'', entry_text_5000)] \<and>
   cache_set memory_storage nat_JSON ''a'' 1 1000 (empty_world 5000) =
     (Inr (), (empty_world 5000)\<lparr>store := [(CACHE_PREFIX @ ''a'', entry_text_5000)]\<rparr>) \<and>
   fst (cache_get memory_storage nat_JSON ''a''
          (snd (cache_set memory_storage nat_JSON ''a'' 1 1000 (empty_world 5000)))) =
     Inr (Some (new_entry 5000 1))"
proof -
  have encoded: "stringify nat_JSON (new_entry (clock (empty_world 5000)) 1) = Inr entry_text_5000"
    by (simp add: codec_defs new_entry_def empty_world_def entry_text_5000_def show_nat.simps)
  have stored: "setItem memory_storage (store (empty_world 5000)) (CACHE_PREFIX @ ''a'')
      entry_text_5000 = Inr [(CACHE_PREFIX @ ''a'', entry_text_5000)]"
    by (simp add: memory_storage_def empty_world_def)
  show ?thesis
    using isStale_strictly_after_ttl
        [of 5000 "new_entry 5000 (1::nat)" 1000 5000 1 6100 nat_JSON "empty_world 5000"
          memory_storage "''a''"]
      isStale_strictly_after_ttl [of 5000 "new_entry 5000 (1::nat)" 0 5000 1 6000]
      encoded stored set_then_get_example
    by (simp add: new_entry_def cache_isStale_def)
qed

subsection \<open>Failures of the store never reach the caller\<close>

lemma cache_get_throwing_parse:
  "getItem S (store w) (CACHE_PREFIX @ key) = Inr (Some v) \<Longrightarrow> v \<noteq> [] \<Longrightarrow>
   parse J v = Inl e \<Longrightarrow>
     cache_get S J key w = (Inr None, w\<lparr>console := console w @ [''Cache get error:'']\<rparr>)"
  by (simp add: cache_get_def prog_defs effect_defs)

lemma cache_set_throwing_stringify:
  "stringify J (new_entry (clock w) d) = Inl e \<Longrightarrow>
     cache_set S J key d t w = (Inr (), w\<lparr>console := console w @ [''Cache set error:'']\<rparr>)"
  by (simp add: cache_set_def prog_defs effect_defs)

lemma cache_remove_effect:
  "cache_remove S key w =
     (case removeItem S (store w) (CACHE_PREFIX @ key) of
        Inl e \<Rightarrow> (Inr (), w\<lparr>console := console w @ [''Cache remove error:'']\<rparr>)
      | Inr st \<Rightarrow> (Inr (), w\<lparr>store := st\<rparr>))"
  by (simp add: cache_remove_def prog_defs effect_defs split: sum.split)

lemma cache_clear_effect:
  "cache_clear S w =
     (case getAllKeys S (store w) of
        Inl e \<Rightarrow> (Inr (), w\<lparr>console := console w @ [''Cache clear error:'']\<rparr>)
      | Inr keys \<Rightarrow>
          (case multiRemove S (store w) (filter (\<lambda>key. prefix CACHE_PREFIX key) keys) of
             Inl e \<Rightarrow> (Inr (), w\<lparr>console := console w @ [''Cache clear error:'']\<rparr>)
           | Inr st \<Rightarrow> (Inr (), w\<lparr>store := st\<rparr>)))"
  by (simp add: cache_clear_def prog_defs effect_defs split: sum.split)

text \<open>
  Claim C6. Whatever the key-value store and the JSON functions do (throw, return a payload
  that does not parse, or succeed), \<^verbatim>\<open>get\<close>, \<^verbatim>\<open>set\<close>, \<^verbatim>\<open>remove\<close> and \<^verbatim>\<open>clear\<close>
  return normally. \<^verbatim>\<open>get\<close> returns absent when the read throws, when nothing is stored
  and when the payload does not parse. When a step of \<^verbatim>\<open>get\<close>, \<^verbatim>\<open>set\<close>, \<^verbatim>\<open>remove\<close> or
  \<^verbatim>\<open>clear\<close> throws (the read or the parse, the stringify or the write, the removal, the
  listing of keys or the removal of the cache's keys), the only change to the world is the
  method's own line on the console.
\<close>

theorem cache_absorbs_failures:
  "fst (cache_get S J key w) =
     Inr (case getItem S (store w) (CACHE_PREFIX @ key) of
            Inl e \<Rightarrow> None
          | Inr None \<Rightarrow> None
          | Inr (Some v) \<Rightarrow>
              if v = [] then None else (case parse J v of Inl e \<Rightarrow> None | Inr entry \<Rightarrow> entry)) \<and>
   fst (cache_set S J key d t w) = Inr () \<and>
   fst (cache_remove S key w) = Inr () \<and>
   fst (cache_clear S w) = Inr () \<and>
   (\<forall>e. getItem S (store w) (CACHE_PREFIX @ key) = Inl e \<longrightarrow>
      snd (cache_get S J key w) = w\<lparr>console := console w @ [''Cache get error:'']\<rparr>) \<and>
   (\<forall>e text. stringify J (new_entry (clock w) d) = Inr text \<and>
      setItem S (store w) (CACHE_PREFIX @ key) text = Inl e \<longrightarrow>
      snd (cache_set S J key d t w) = w\<lparr>console := console w @ [''Cache set error:'']\<rparr>) \<and>
   (\<forall>e v. getItem S (store w) (CACHE_PREFIX @ key) = Inr (Some v) \<and> v \<noteq> [] \<and>
      parse J v = Inl e \<longrightarrow>
      snd (cache_get S J key w) = w\<lparr>console := console w @ [''Cache get error:'']\<rparr>) \<and>
   (\<forall>e. stringify J (new_entry (clock w) d) = Inl e \<longrightarrow>
      snd (cache_set S J key d t w) = w\<lparr>console := console w @ [''Cache set error:'']\<rparr>) \<and>
   (\<forall>e. removeItem S (store w) (CACHE_PREFIX @ key) = Inl e \<longrightarrow>
      snd (cache_remove S key w) = w\<lparr>console := console w @ [''Cache remove error:'']\<rparr>) \<and>
   (\<forall>st. removeItem S (store w) (CACHE_PREFIX @ key) = Inr st \<longrightarrow>
      snd (cache_remove S key w) = w\<lparr>store := st\<rparr>) \<and>
   (\<forall>e. getAllKeys S (store w) = Inl e \<longrightarrow>
      snd (cache_clear S w) = w\<lparr>console := console w @ [''Cache clear error:'']\<rparr>) \<and>
   (\<forall>e keys. getAllKeys S (store w) = Inr keys \<and>
      multiRemove S (store w) (filter (\<lambda>key. prefix CACHE_PREFIX key) keys) = Inl e \<longrightarrow>
      snd (cache_clear S w) = w\<lparr>console := console w @ [''Cache clear error:'']\<rparr>) \<and>
   (\<forall>st keys. getAllKeys S (store w) = Inr keys \<and>
      multiRemove S (store w) (filter (\<lambda>key. prefix CACHE_PREFIX key) keys) = Inr st \<longrightarrow>
      snd (cache_clear S w) = w\<lparr>store := st\<rparr>)"
proof -
  have results:
    "fst (cache_get S J key w) =
       Inr (case getItem S (store w) (CACHE_PREFIX @ key) of
              Inl e \<Rightarrow> None
            | Inr None \<Rightarrow> None
            | Inr (Some v) \<Rightarrow>
                if v = [] then None
                else (case parse J v of Inl e \<Rightarrow> None | Inr entry \<Rightarrow> entry))"
    "fst (cache_set S J key d t w) = Inr ()"
    "fst (cache_remove S key w) = Inr ()"
    "fst (cache_clear S w) = Inr ()"
    by (simp_all add: cache_get_result cache_set_result cache_remove_result cache_clear_result)
  have reads: "\<forall>e. getItem S (store w) (CACHE_PREFIX @ key) = Inl e \<longrightarrow>
      snd (cache_get S J key w) = w\<lparr>console := console w @ [''Cache get error:'']\<rparr>"
    "\<forall>e v. getItem S (store w) (CACHE_PREFIX @ key) = Inr (Some v) \<and> v \<noteq> [] \<and>
      parse J v = Inl e \<longrightarrow>
      snd (cache_get S J key w) = w\<lparr>console := console w @ [''Cache get error:'']\<rparr>"
    by (simp_all add: cache_get_throwing_read cache_get_throwing_parse)
  have writes: "\<forall>e text. stringify J (new_entry (clock w) d) = Inr text \<and>
      setItem S (store w) (CACHE_PREFIX @ key) text = Inl e \<longrightarrow>
      snd (cache_set S J key d t w) = w\<lparr>console := console w @ [''Cache set error:'']\<rparr>"
    "\<forall>e. stringify J (new_entry (clock w) d) = Inl e \<longrightarrow>
      snd (cache_set S J key d t w) = w\<lparr>console := console w @ [''Cache set error:'']\<rparr>"
    by (simp_all add: cache_set_throwing_write cache_set_throwing_stringify)
  have removals: "\<forall>e. removeItem S (store w) (CACHE_PREFIX @ key) = Inl e \<longrightarrow>
      snd (cache_remove S key w) = w\<lparr>console := console w @ [''Cache remove error:'']\<rparr>"
    "\<forall>st. removeItem S (store w) (CACHE_PREFIX @ key) = Inr st \<longrightarrow>
      snd (cache_remove S key w) = w\<lparr>store := st\<rparr>"
    by (simp_all add: cache_remove_effect)
  have clears: "\<forall>e. getAllKeys S (store w) = Inl e \<longrightarrow>
      snd (cache_clear S w) = w\<lparr>console := console w @ [''Cache clear error:'']\<rparr>"
    "\<forall>e keys. getAllKeys S (store w) = Inr keys \<and>
      multiRemove S (store w) (filter (\<lambda>key. prefix CACHE_PREFIX key) keys) = Inl e \<longrightarrow>
      snd (cache_clear S w) = w\<lparr>console := console w @ [''Cache clear error:'']\<rparr>"
    "\<forall>st keys. getAllKeys S (store w) = Inr keys \<and>
      multiRemove S (store w) (filter (\<lambda>key. prefix CACHE_PREFIX key) keys) = Inr st \<longrightarrow>
      snd (cache_clear S w) = w\<lparr>store := st\<rparr>"
    by (simp_all add: cache_clear_effect)
  show ?thesis
    using results reads writes removals clears by blast
qed

theorem cache_absorbs_failures_witness:
  "fst (cache_get broken_storage nat_JSON ''posts'' broken_world) = Inr None \<and>
   fst (cache_set broken_storage nat_JSON ''posts'' 1 1000 broken_world) = Inr () \<and>
   fst (cache_remove broken_storage ''posts'' broken_world) = Inr () \<and>
   fst (cache_clear broken_storage broken_world) = Inr () \<and>
   console (snd (cache_get broken_storage nat_JSON ''posts'' broken_world)) =
     [''Cache get error:''] \<and>
   console (snd (cache_set broken_storage nat_JSON ''posts'' 1 1000 broken_world)) =
     [''Cache set error:''] \<and>
   console (snd (cache_remove broken_storage ''posts'' broken_world)) =
     [''Cache remove error:''] \<and>
   console (snd (cache_clear broken_storage broken_world)) = [''Cache clear error:''] \<and>
   fst (cache_get memory_storage nat_JSON ''posts'' garbage_world) = Inr None \<and>
   console (snd (cache_get memory_storage nat_JSON ''posts'' garbage_world)) =
     [''Cache get error:''] \<and>
   store (snd (cache_remove memory_storage ''posts'' garbage_world)) = [] \<and>
   store (snd (cache_clear memory_storage garbage_world)) = []"
  using cache_absorbs_failures [of broken_storage nat_JSON "''posts''" broken_world 1 1000]
    cache_absorbs_failures [of memory_storage nat_JSON "''posts''" garbage_world 1 1000]
  by (simp add: broken_storage_def broken_world_def garbage_world_def memory_storage_def
      codec_defs new_entry_def CACHE_PREFIX_def)

subsection \<open>Revalidation\<close>

lemma stale_hit_swr:
  assumes "fst (cache_get S J key w) = Inr (Some e)"
    and "cache_isStale (clock w) e (ttl options)"
    and "staleWhileRevalidate options"
  shows "cacheWithRevalidation S J key fetchFn options w =
           (Inr \<lparr>rv_data = data e, rv_isStale = True\<rparr>,
            w\<lparr>fetches := fetches w @ [key],
              inflight := inflight w @
                [\<lparr>r_key = key, r_outcome = outcome fetchFn, r_ttl = ttl options\<rparr>]\<rparr>)"
  using assms cache_get_hit [OF assms(1)]
  by (simp add: cacheWithRevalidation_def bindM_def returnM_def Date_now_def spawn_refresh_def)

lemma revalidate_calls_stale:
  assumes "fst (cache_get S J key w) = Inr (Some e)"
    and "cache_isStale (clock w) e (ttl options)"
    and "staleWhileRevalidate options"
  shows "revalidate_calls S J key options fs w =
           w\<lparr>fetches := fetches w @ replicate (length fs) key,
             inflight := inflight w @
               map (\<lambda>f. \<lparr>r_key = key, r_outcome = outcome f, r_ttl = ttl options\<rparr>) fs\<rparr>"
  using assms
proof (induction fs arbitrary: w)
  case Nil
  then show ?case by simp
next
  case (Cons f fs)
  let ?w1 = "w\<lparr>fetches := fetches w @ [key],
              inflight := inflight w @
                [\<lparr>r_key = key, r_outcome = outcome f, r_ttl = ttl options\<rparr>]\<rparr>"
  have step: "snd (cacheWithRevalidation S J key f options w) = ?w1"
    using stale_hit_swr [OF Cons.prems, of f] by simp
  have hit: "fst (cache_get S J key ?w1) = Inr (Some e)"
    using Cons.prems(1) cache_get_store_only [of ?w1 w S J key] by simp
  have "revalidate_calls S J key options fs ?w1 =
          ?w1\<lparr>fetches := fetches ?w1 @ replicate (length fs) key,
            inflight := inflight ?w1 @
              map (\<lambda>f. \<lparr>r_key = key, r_outcome = outcome f, r_ttl = ttl options\<rparr>) fs\<rparr>"
    using Cons.IH [OF hit] Cons.prems(2,3) by simp
  then show ?case
    using step by (simp add: replicate_append_same)
qed

lemma cache_set_world:
  "fetches (snd (cache_set S J key d t w)) = fetches w \<and>
   inflight (snd (cache_set S J key d t w)) = inflight w \<and>
   clock (snd (cache_set S J key d t w)) = clock w"
  by (simp add: cache_set_def prog_defs effect_defs split: sum.split)

text \<open>
  A background refresh that settles leaves the list of outstanding refreshes shorter by one
  and invokes no fetch.
\<close>

lemma settle_refresh_world:
  assumes "i < length (inflight w)"
  shows "length (inflight (settle_refresh S J i w)) = length (inflight w) - 1 \<and>
         fetches (settle_refresh S J i w) = fetches w"
proof (cases "r_outcome (inflight w ! i)")
  case (Inl err)
  then show ?thesis
    using assms by (simp add: settle_refresh_def Let_def prog_defs console_error_def)
next
  case (Inr freshData)
  let ?w1 = "w\<lparr>inflight := take i (inflight w) @ drop (Suc i) (inflight w)\<rparr>"
  let ?set = "cache_set S J (r_key (inflight w ! i)) freshData (r_ttl (inflight w ! i)) ?w1"
  obtain w2 where written: "?set = (Inr (), w2)"
    using cache_set_result [of S J "r_key (inflight w ! i)" freshData "r_ttl (inflight w ! i)" ?w1]
    by (cases ?set) auto
  have "settle_refresh S J i w = w2"
    using assms Inr written by (simp add: settle_refresh_def Let_def prog_defs)
  then show ?thesis
    using assms written
      cache_set_world [of S J "r_key (inflight w ! i)" freshData "r_ttl (inflight w ! i)" ?w1]
    by simp
qed

lemma posts_world_stale:
  "cache_isStale (clock posts_world) (new_entry 0 (1::nat)) (ttl swr_options)"
  by (simp add: posts_world_eq cache_isStale_def new_entry_def swr_options_def)

text \<open>
  Claim C1, as stated, fails: the code keeps no registry of outstanding refreshes. With one
  background refresh for \<^verbatim>\<open>posts\<close> outstanding, a second call starts a second fetch, so
  two are in flight for the key and the fetch function has run twice.
\<close>

theorem single_flight_counterexample:
  "inflight_for ''posts''
     (revalidate_calls memory_storage nat_JSON ''posts'' swr_options [fetch_posts] posts_world) = 1 \<and>
   \<not> inflight_for ''posts''
       (revalidate_calls memory_storage nat_JSON ''posts'' swr_options
          [fetch_posts, fetch_posts] posts_world) \<le> 1 \<and>
   fetches (revalidate_calls memory_storage nat_JSON ''posts'' swr_options
              [fetch_posts, fetch_posts] posts_world) = [''posts'', ''posts'']"
proof -
  have h3: "staleWhileRevalidate swr_options"
    by (simp add: swr_options_def)
  have flights: "inflight posts_world = []" "fetches posts_world = []"
    by (simp_all add: posts_world_eq)
  show ?thesis
    using revalidate_calls_stale [OF posts_world_hit posts_world_stale h3, of "[fetch_posts]"]
      revalidate_calls_stale [OF posts_world_hit posts_world_stale h3,
        of "[fetch_posts, fetch_posts]"]
    by (simp add: inflight_for_def flights)
qed

text \<open>
  Claim C1, amended. Every call that finds a stale entry with \<^verbatim>\<open>staleWhileRevalidate\<close>
  true returns the stale cached data with \<^verbatim>\<open>isStale\<close> true, invokes the fetch function
  once and starts a background refresh of its own, whether or not one is outstanding. So
  \<open>N\<close> such calls issued before any refresh settles invoke the fetch function \<open>N\<close> times
  and leave \<open>N\<close> more refreshes in flight for the key.
\<close>

theorem revalidate_refetches_every_call:
  assumes "fst (cache_get S J key w) = Inr (Some e)"
    and "cache_isStale (clock w) e (ttl options)"
    and "staleWhileRevalidate options"
  shows "fst (cacheWithRevalidation S J key fetchFn options w) =
           Inr \<lparr>rv_data = data e, rv_isStale = True\<rparr> \<and>
         fetches (revalidate_calls S J key options fs w) =
           fetches w @ replicate (length fs) key \<and>
         inflight_for key (revalidate_calls S J key options fs w) =
           inflight_for key w + length fs"
  using stale_hit_swr [OF assms, of fetchFn] revalidate_calls_stale [OF assms, of fs]
  by (simp add: inflight_for_def filter_map comp_def)

theorem revalidate_refetches_every_call_witness:
  "fst (cache_get memory_storage nat_JSON ''posts'' posts_world) = Inr (Some (new_entry 0 1)) \<and>
   cache_isStale (clock posts_world) (new_entry 0 (1::nat)) (ttl swr_options) \<and>
   staleWhileRevalidate swr_options \<and>
   fst (cacheWithRevalidation memory_storage nat_JSON ''posts'' fetch_posts swr_options
          posts_world) = Inr \<lparr>rv_data = 1, rv_isStale = True\<rparr> \<and>
   fetches (revalidate_calls memory_storage nat_JSON ''posts'' swr_options
              [fetch_posts, fetch_posts, fetch_posts] posts_world) =
     [''posts'', ''posts'', ''posts'']"
proof -
  have h3: "staleWhileRevalidate swr_options"
    by (simp add: swr_options_def)
  show ?thesis
    using revalidate_refetches_every_call [OF posts_world_hit posts_world_stale h3,
        of fetch_posts "[fetch_posts, fetch_posts, fetch_posts]"]
      posts_world_hit posts_world_stale h3
    by (simp add: posts_world_eq new_entry_def numeral_3_eq_3)
qed

text \<open>
  Claim C7. When the cache holds an entry for the key that is not stale under the given
  ttl, \<^verbatim>\<open>cacheWithRevalidation\<close> returns that entry's data with \<^verbatim>\<open>isStale\<close> false and
  leaves the world as it was: the fetch function is not invoked and nothing is written.
  This holds for every value of \<^verbatim>\<open>staleWhileRevalidate\<close>.
\<close>

theorem fresh_hit_never_fetches:
  assumes "fst (cache_get S J key w) = Inr (Some e)"
    and "\<not> cache_isStale (clock w) e (ttl options)"
  shows "cacheWithRevalidation S J key fetchFn options w =
           (Inr \<lparr>rv_data = data e, rv_isStale = False\<rparr>, w) \<and>
         fetches (snd (cacheWithRevalidation S J key fetchFn options w)) = fetches w \<and>
         inflight (snd (cacheWithRevalidation S J key fetchFn options w)) = inflight w"
  using assms cache_get_hit [OF assms(1)]
  by (simp add: cacheWithRevalidation_def bindM_def returnM_def Date_now_def)

theorem fresh_hit_never_fetches_witness:
  "fst (cache_get memory_storage nat_JSON ''posts'' posts_world) = Inr (Some (new_entry 0 1)) \<and>
   \<not> cache_isStale (clock posts_world) (new_entry 0 (1::nat)) 200000 \<and>
   cacheWithRevalidation memory_storage nat_JSON ''posts'' fetch_posts
     \<lparr>ttl = 200000, staleWhileRevalidate = True\<rparr> posts_world =
     (Inr \<lparr>rv_data = 1, rv_isStale = False\<rparr>, posts_world) \<and>
   cacheWithRevalidation memory_storage nat_JSON ''posts'' fetch_posts
     \<lparr>ttl = 200000, staleWhileRevalidate = False\<rparr> posts_world =
     (Inr \<lparr>rv_data = 1, rv_isStale = False\<rparr>, posts_world) \<and>
   fetches posts_world = []"
proof -
  have fresh: "\<not> cache_isStale (clock posts_world) (new_entry 0 (1::nat)) 200000"
    by (simp add: posts_world_eq cache_isStale_def new_entry_def)
  show ?thesis
    using fresh_hit_never_fetches [OF posts_world_hit, of
        "\<lparr>ttl = 200000, staleWhileRevalidate = True\<rparr>" fetch_posts]
      fresh_hit_never_fetches [OF posts_world_hit, of
        "\<lparr>ttl = 200000, staleWhileRevalidate = False\<rparr>" fetch_posts]
      posts_world_hit fresh
    by (simp add: new_entry_def posts_world_eq)
qed

text \<open>
  Claim C10. The ttl passed to \<^verbatim>\<open>set\<close> does not reach the stored state: two writes of the
  same data under the same key at the same clock with different ttls leave the same world
  and return the same result. The entry written holds the data, the clock at the write and
  the constant \<^verbatim>\<open>stale: false\<close>, so a later \<^verbatim>\<open>cacheWithRevalidation\<close> decides staleness
  from the ttl of its own options alone.
\<close>

theorem set_ignores_ttl:
  "cache_set S J key d t1 w = cache_set S J key d t2 w \<and>
   new_entry (clock w) d = \<lparr>data = d, timestamp = clock w, stale = False\<rparr> \<and>
   cacheWithRevalidation S J key fetchFn options (snd (cache_set S J key d t1 w)) =
     cacheWithRevalidation S J key fetchFn options (snd (cache_set S J key d t2 w))"
  by (simp add: cache_set_def new_entry_def)

theorem set_ignores_ttl_witness:
  "cache_set memory_storage nat_JSON ''a'' 1 1000 (empty_world 5000) =
     cache_set memory_storage nat_JSON ''a'' 1 0 (empty_world 5000) \<and>
   fst (cache_get memory_storage nat_JSON ''a''
          (snd (cache_set memory_storage nat_JSON ''a'' 1 0 (empty_world 5000)))) =
     Inr (Some \<lparr>data = 1, timestamp = 5000, stale = False\<rparr>)"
  using set_ignores_ttl [of memory_storage nat_JSON "''a''" 1 1000 "empty_world 5000" 0]
    set_then_get_example
  by (simp add: new_entry_def)

section \<open>Properties of pagination\<close>

subsection \<open>One load at a time\<close>

lemma loadPage_start_busy: "isLoadingRef s \<Longrightarrow> loadPage_start pageNum isRefresh s = s"
  by (simp add: loadPage_start_def)

lemma loadPage_start_idle:
  "\<not> isLoadingRef s \<Longrightarrow>
     isLoadingRef (loadPage_start pageNum isRefresh s) \<and>
     fetchCalls (loadPage_start pageNum isRefresh s) = fetchCalls s @ [pageNum] \<and>
     suspended (loadPage_start pageNum isRefresh s) = suspended s @ [(pageNum, isRefresh)] \<and>
     h_data (loadPage_start pageNum isRefresh s) = h_data s"
  by (simp add: loadPage_start_def Let_def)

lemma one_load_start: "one_load s \<Longrightarrow> one_load (loadPage_start pageNum isRefresh s)"
  by (auto simp add: one_load_def loadPage_start_def Let_def)

lemma one_load_step: "one_load s \<Longrightarrow> one_load (hook_step s ev)"
proof (cases ev)
  case (LoadMore rendered)
  assume "one_load s"
  then show ?thesis
    using LoadMore one_load_start [of s] by (simp add: loadMore_def)
next
  case Refresh
  assume "one_load s"
  then show ?thesis
    using Refresh one_load_start [of s] by (simp add: refresh_def)
next
  case (Settled result)
  assume "one_load s"
  then show ?thesis
    using Settled
    by (cases "suspended s")
      (auto simp add: one_load_def loadPage_settle_def Let_def split: sum.splits)
qed

lemma one_load_foldl: "one_load s \<Longrightarrow> one_load (foldl hook_step s events)"
  by (induction events arbitrary: s) (simp_all add: one_load_step)

lemma one_load_run: "one_load (hook_run events)"
  unfolding hook_run_def
  by (rule one_load_foldl)
    (simp add: one_load_def loadPage_start_def usePagination_initial_def Let_def)

text \<open>
  Claim C8. While a load of the same hook has not settled (the ref is set), a call of
  \<^verbatim>\<open>loadMore\<close> changes nothing, whichever render its callback comes from: no fetch is
  invoked and no state is written. So when \<^verbatim>\<open>loadMore\<close> starts a load and is called
  again before the answer arrives, exactly one fetch is invoked for the two calls, for the
  page after the rendered one; the answer is then applied to the same state as if the second
  call had not happened. In every state the hook can reach, at most one \<^verbatim>\<open>loadPage\<close>
  call is suspended, and the ref is set exactly then.
\<close>

theorem loadMore_while_loading_is_noop:
  "(isLoadingRef s \<longrightarrow> loadMore rendered s = s) \<and>
   (\<not> isLoadingRef s \<and> \<not> h_isLoading rendered \<and> h_hasMore rendered \<longrightarrow>
      isLoadingRef (loadMore rendered s) \<and>
      loadMore again (loadMore rendered s) = loadMore rendered s \<and>
      fetchCalls (loadMore again (loadMore rendered s)) = fetchCalls s @ [h_page rendered + 1] \<and>
      hook_step (loadMore again (loadMore rendered s)) (Settled result) =
        hook_step (loadMore rendered s) (Settled result)) \<and>
   one_load (hook_run events) \<and>
   length (suspended (hook_run events)) \<le> 1"
proof -
  have busy: "loadMore r t = t" if "isLoadingRef t" for r t :: "'a pagination"
    using that by (simp add: loadMore_def loadPage_start_busy)
  have first: "isLoadingRef (loadMore rendered s) \<and>
      fetchCalls (loadMore rendered s) = fetchCalls s @ [h_page rendered + 1]"
    if "\<not> isLoadingRef s" "\<not> h_isLoading rendered" "h_hasMore rendered"
    using that loadPage_start_idle [of s "h_page rendered + 1" False]
    by (simp add: loadMore_def)
  have at_most: "length (suspended (hook_run events)) \<le> 1"
    using one_load_run [of events] by (auto simp add: one_load_def)
  show ?thesis
    using busy first at_most one_load_run [of events] by simp
qed

theorem loadMore_while_loading_is_noop_witness:
  "isLoadingRef (hook_run ([] :: Product hook_event list)) \<and>
   loadMore usePagination_initial (hook_run ([] :: Product hook_event list)) = hook_run [] \<and>
   \<not> isLoadingRef (hook_run [Settled (Inr (page_of [product 1, product 2] True))]) \<and>
   \<not> h_isLoading (hook_run [Settled (Inr (page_of [product 1, product 2] True))]) \<and>
   h_hasMore (hook_run [Settled (Inr (page_of [product 1, product 2] True))]) \<and>
   fetchCalls (hook_run [Settled (Inr (page_of [product 1, product 2] True)),
                         LoadMore (hook_run [Settled (Inr (page_of [product 1, product 2] True))]),
                         LoadMore (hook_run [Settled (Inr (page_of [product 1, product 2] True))])])
     = [1, 2] \<and>
   length (suspended
     (hook_run [Settled (Inr (page_of [product 1, product 2] True)),
                LoadMore (hook_run [Settled (Inr (page_of [product 1, product 2] True))]),
                LoadMore (hook_run [Settled (Inr (page_of [product 1, product 2] True))])])) = 1"
  using loadMore_while_loading_is_noop
    [of "hook_run [Settled (Inr (page_of [product 1, product 2] True))]"
        "hook_run [Settled (Inr (page_of [product 1, product 2] True))]"
        "hook_run [Settled (Inr (page_of [product 1, product 2] True))]"
        "Inr (page_of [product 3] False)" "[]"]
    loadMore_while_loading_is_noop
    [of "hook_run ([] :: Product hook_event list)" usePagination_initial]
  by (simp add: hook_run_def loadMore_def loadPage_start_def loadPage_settle_def
      usePagination_initial_def page_of_def Let_def)

subsection \<open>Failed loads\<close>



text \<open>
  A rejection with \<^verbatim>\<open>undefined\<close> or \<^verbatim>\<open>null\<close> in the hook: the \<^verbatim>\<open>catch\<close> throws while
  reading \<^verbatim>\<open>err.message\<close>, so the error field keeps the value it had; the data and the
  \<^verbatim>\<open>finally\<close> block are as for any other rejection.
\<close>

lemma loadPage_settle_nullish:
  "h_error (loadPage_settle pageNum isRefresh (Inl Nullish) t) = h_error t \<and>
   h_data (loadPage_settle pageNum isRefresh (Inl Nullish) t) = h_data t \<and>
   \<not> isLoadingRef (loadPage_settle pageNum isRefresh (Inl Nullish) t)"
  by (simp add: loadPage_settle_def message_def)




subsection \<open>Merging a page\<close>

lemma fulfilled_next_page_items:
  "argPage \<noteq> 0 \<Longrightarrow>
     items (fetchProducts_fulfilled argPage payload s) =
       items s @ filter (\<lambda>item. product_id item \<notin> product_id ` set (items s)) payload"
  by (simp add: fetchProducts_fulfilled_def Let_def)

text \<open>
  Claim C3, as stated, fails for the hook: \<^verbatim>\<open>loadPage\<close> appends the whole incoming page.
  With \<^verbatim>\<open>[{id:1},{id:2}]\<close> held and \<^verbatim>\<open>[{id:2},{id:3}]\<close> incoming, the hook's list becomes
  \<^verbatim>\<open>[{id:1},{id:2},{id:2},{id:3}]\<close>.
\<close>

theorem hook_merge_counterexample:
  "h_data (hook_run [Settled (Inr (page_of [product 1, product 2] True)),
                     LoadMore (hook_run [Settled (Inr (page_of [product 1, product 2] True))]),
                     Settled (Inr (page_of [product 2, product 3] False))])
     = [product 1, product 2, product 2, product 3] \<and>
   h_data (hook_run [Settled (Inr (page_of [product 1, product 2] True)),
                     LoadMore (hook_run [Settled (Inr (page_of [product 1, product 2] True))]),
                     Settled (Inr (page_of [product 2, product 3] False))])
     \<noteq> [product 1, product 2, product 3]"
  by (simp add: hook_run_def loadMore_def loadPage_start_def loadPage_settle_def
      usePagination_initial_def page_of_def product_def Let_def)

text \<open>
  Claim C3, amended. In the products slice, a fulfilled fetch of a page other than page 0
  keeps the held items as they are, as a prefix of the new list, and appends exactly the
  incoming products whose id is not among the held ids, in their incoming order; a page
  whose ids are all held leaves the list unchanged. The hook \<^verbatim>\<open>usePagination\<close>, whose
  items have no identity, appends every incoming item of a load-more page.
\<close>

theorem slice_merge_appends_new_ids:
  assumes "argPage \<noteq> 0"
  shows "take (length (items s)) (items (fetchProducts_fulfilled argPage payload s)) = items s \<and>
         drop (length (items s)) (items (fetchProducts_fulfilled argPage payload s)) =
           filter (\<lambda>item. product_id item \<notin> product_id ` set (items s)) payload \<and>
         subseq (drop (length (items s)) (items (fetchProducts_fulfilled argPage payload s)))
           payload \<and>
         ((\<forall>item \<in> set payload. product_id item \<in> product_id ` set (items s)) \<longrightarrow>
            items (fetchProducts_fulfilled argPage payload s) = items s) \<and>
         h_data (loadPage_settle pageNum False (Inr response) h) =
           h_data h @ response_data response"
proof -
  have merged: "items (fetchProducts_fulfilled argPage payload s) =
      items s @ filter (\<lambda>item. product_id item \<notin> product_id ` set (items s)) payload"
    using assms by (rule fulfilled_next_page_items)
  have same: "items (fetchProducts_fulfilled argPage payload s) = items s"
    if "\<forall>item \<in> set payload. product_id item \<in> product_id ` set (items s)"
  proof -
    have "filter (\<lambda>item. product_id item \<notin> product_id ` set (items s)) payload = []"
      using that by (simp add: filter_empty_conv)
    then show ?thesis using merged by simp
  qed
  have hook: "h_data (loadPage_settle pageNum False (Inr response) h) =
      h_data h @ response_data response"
    by (simp add: loadPage_settle_def)
  show ?thesis
    using merged same hook by simp
qed

theorem slice_merge_appends_new_ids_witness:
  "(1::int) \<noteq> 0 \<and>
   items (fetchProducts_fulfilled 1 [product 2, product 3]
            (fetchProducts_fulfilled 0 [product 1, product 2]
               (initialState :: Product ProductsState)))
     = [product 1, product 2, product 3] \<and>
   list_all (\<lambda>item. product_id item \<in> product_id ` set [product 1, product 2])
     [product 2, product 1] \<and>
   items (fetchProducts_fulfilled 1 [product 2, product 1]
            (fetchProducts_fulfilled 0 [product 1, product 2]
               (initialState :: Product ProductsState)))
     = [product 1, product 2]"
proof -
  have page1: "(1::int) \<noteq> 0" by simp
  show ?thesis
    using slice_merge_appends_new_ids [OF page1, of
        "fetchProducts_fulfilled 0 [product 1, product 2] (initialState :: Product ProductsState)"
        "[product 2, product 3]"]
      slice_merge_appends_new_ids [OF page1, of
        "fetchProducts_fulfilled 0 [product 1, product 2] (initialState :: Product ProductsState)"
        "[product 2, product 1]"]
    by (simp add: fetchProducts_fulfilled_def initialState_def product_def Let_def)
qed

section \<open>Runs of the promise pool\<close>

lemmas pool_defs = promisePool_def await_all_def results_at_def running_at_def succeeding_def
  settled_at_def seen_at_def moment_le_def moment_max_def findIndex_def splice1_def Let_def

text \<open>
  What the loop's \<^verbatim>\<open>splice\<close> does: \<^verbatim>\<open>findIndex\<close> looks for the promise that was just
  pushed, so the array after the \<^verbatim>\<open>splice\<close> is the array before the \<^verbatim>\<open>push\<close>, whichever
  promise won the race.
\<close>

lemma findIndex_from_last:
  "\<forall>p \<in> set xs. \<not> P p \<Longrightarrow> P q \<Longrightarrow> findIndex_from i P (xs @ [q]) = int (i + length xs)"
  by (induction xs arbitrary: i) simp_all

lemma splice_removes_pushed:
  assumes "\<forall>p \<in> set xs. p_index p \<noteq> i" and "p_index q = i"
  shows "splice1 (findIndex (\<lambda>p. p_index p = i) (xs @ [q])) (xs @ [q]) = xs"
  using findIndex_from_last [of xs "\<lambda>p. p_index p = i" q 0] assms
  by (simp add: findIndex_def splice1_def)

lemma pool_loop_under_limit:
  "int (length (pool_executing st) + length ts) < c \<Longrightarrow>
     pool_loop c i ts st =
       (Inr (), st\<lparr>pool_executing := pool_executing st @ start_all (pool_time st) i ts,
                  pool_spawned := pool_spawned st @ start_all (pool_time st) i ts\<rparr>)"
proof (induction ts arbitrary: st i)
  case Nil
  then show ?case by simp
next
  case (Cons x xs)
  let ?p = "\<lparr>p_index = i, p_started = pool_time st,
             p_settles = pool_time st + task_duration x, p_value = task_result x\<rparr>"
  let ?st1 = "st\<lparr>pool_executing := pool_executing st @ [?p],
                pool_spawned := pool_spawned st @ [?p]\<rparr>"
  have below: "\<not> c \<le> int (length (pool_executing ?st1))"
    using Cons.prems by simp
  have rest: "int (length (pool_executing ?st1) + length xs) < c"
    using Cons.prems by simp
  have "pool_loop c i (x # xs) st = pool_loop c (Suc i) xs ?st1"
    using below by (simp add: Let_def)
  then show ?case
    using Cons.IH [OF rest, of "Suc i"] by simp
qed

lemma start_all_values:
  "map p_value (start_all t i ts) = map task_result ts \<and>
   map p_settles (start_all t i ts) = map (\<lambda>x. t + task_duration x) ts \<and>
   map p_started (start_all t i ts) = replicate (length ts) t"
  by (induction ts arbitrary: i) simp_all

lemma moment_le_refl: "moment_le a a"
  by (simp add: moment_le_def)

lemma moment_le_trans: "moment_le a b \<Longrightarrow> moment_le b c \<Longrightarrow> moment_le a c"
  by (auto simp add: moment_le_def)

lemma moment_max_upper: "moment_le a (moment_max a b) \<and> moment_le b (moment_max a b)"
  by (auto simp add: moment_max_def moment_le_def)

lemma fold_moment_max_lower: "moment_le m (fold moment_max xs m)"
proof (induction xs arbitrary: m)
  case Nil
  show ?case by (simp add: moment_le_refl)
next
  case (Cons a xs)
  have "moment_le m (moment_max a m)"
    using moment_max_upper [of a m] by simp
  then show ?case
    using Cons.IH [of "moment_max a m"] moment_le_trans by fastforce
qed

lemma fold_moment_max_upper: "x \<in> set xs \<Longrightarrow> moment_le x (fold moment_max xs m)"
proof (induction xs arbitrary: m)
  case Nil
  then show ?case by simp
next
  case (Cons a xs)
  show ?case
  proof (cases "x = a")
    case True
    have "moment_le a (moment_max a m)"
      using moment_max_upper [of a m] by simp
    then have "moment_le a (fold moment_max xs (moment_max a m))"
      using fold_moment_max_lower [of "moment_max a m" xs] moment_le_trans by blast
    then show ?thesis using True by simp
  next
    case False
    then have "x \<in> set xs" using Cons.prems by simp
    then have "moment_le x (fold moment_max xs (moment_max a m))" by (rule Cons.IH)
    then show ?thesis by simp
  qed
qed

lemma settled_at_moment:
  "settled_at t k p \<longleftrightarrow> moment_le (p_settles p, Suc (p_index p)) (t, k)"
  by (auto simp add: settled_at_def moment_le_def)

lemma trim_holes_full: "\<forall>x \<in> set xs. x \<noteq> None \<Longrightarrow> trim_holes xs = xs"
  by (induction xs) (auto split: list.splits option.splits)

text \<open>
  With a limit above the number of tasks no race is awaited: every task is started at time
  0, and when all tasks succeed the returned array holds each task's value at its index.
\<close>

lemma pool_above_size:
  assumes "int (length ts) < c" and "\<forall>x \<in> set ts. \<not> isl (task_result x)"
  shows "returned (promisePool ts c) = Inr (map (\<lambda>x. Some (projr (task_result x))) ts) \<and>
         created (promisePool ts c) = start_all 0 0 ts"
proof -
  let ?ps = "start_all 0 0 ts"
  let ?T = "fold moment_max (map (seen_at 0 0) ?ps) (0, 0)"
  have loop: "pool_loop c 0 ts
        \<lparr>pool_time = 0, pool_rank = 0, pool_executing = [], pool_spawned = []\<rparr> =
      (Inr (), \<lparr>pool_time = 0, pool_rank = 0, pool_executing = ?ps, pool_spawned = ?ps\<rparr>)"
    using pool_loop_under_limit
      [of "\<lparr>pool_time = 0, pool_rank = 0, pool_executing = [], pool_spawned = []\<rparr>" ts c 0]
      assms(1)
    by simp
  have ok: "\<forall>p \<in> set ?ps. \<not> isl (p_value p)"
  proof
    fix p assume "p \<in> set ?ps"
    then have "p_value p \<in> set (map p_value ?ps)" by simp
    then have "p_value p \<in> set (map task_result ts)"
      using start_all_values [of 0 0 ts] by simp
    then show "\<not> isl (p_value p)" using assms(2) by auto
  qed
  then have none: "filter (\<lambda>p. isl (p_value p)) ?ps = []"
    by (simp add: filter_empty_conv)
  have all: "await_all 0 0 ?ps = (Inr (), ?T)"
    using none by (simp add: await_all_def)
  have each: "(case p_value p of Inl err \<Rightarrow> None
               | Inr v \<Rightarrow> if settled_at (fst ?T) (snd ?T) p then Some v else None) =
              Some (projr (p_value p))" if "p \<in> set ?ps" for p
  proof -
    have seen: "seen_at 0 0 p = (p_settles p, Suc (p_index p))"
      by (simp add: seen_at_def settled_at_def)
    have "seen_at 0 0 p \<in> set (map (seen_at 0 0) ?ps)"
      using that by simp
    then have "moment_le (seen_at 0 0 p) ?T"
      by (rule fold_moment_max_upper)
    then have "settled_at (fst ?T) (snd ?T) p"
      using seen settled_at_moment [of "fst ?T" "snd ?T" p] by simp
    then show ?thesis
      using ok that by (cases "p_value p") auto
  qed
  have "results_at (fst ?T) (snd ?T) ?ps = trim_holes (map (\<lambda>p. Some (projr (p_value p))) ?ps)"
    unfolding results_at_def using each by (simp cong: map_cong)
  also have "\<dots> = map (\<lambda>p. Some (projr (p_value p))) ?ps"
    by (rule trim_holes_full) simp
  also have "\<dots> = map (\<lambda>v. Some (projr v)) (map p_value ?ps)"
    by (simp add: comp_def)
  also have "\<dots> = map (\<lambda>x. Some (projr (task_result x))) ts"
    using start_all_values [of 0 0 ts] by (simp add: comp_def)
  finally have "results_at (fst ?T) (snd ?T) ?ps = map (\<lambda>x. Some (projr (task_result x))) ts" .
  then show ?thesis
    using loop all by (simp add: promisePool_def case_prod_beta)
qed

text \<open>
  The scenario of three tasks of 200, 100 and 50 time units under a limit of 2: the results
  come back in input order once the last task has settled, and an empty task list returns an
  empty array at once.
\<close>

lemma pool_three_tasks_example:
  "returned (promisePool [succeeding 200 ''A'', succeeding 100 ''B'', succeeding 50 ''C''] 2) =
     Inr [Some ''A'', Some ''B'', Some ''C''] \<and>
   returned_at (promisePool [succeeding 200 ''A'', succeeding 100 ''B'', succeeding 50 ''C''] 2) =
     200 \<and>
   returned (promisePool ([] :: string task list) 2) = Inr [] \<and>
   returned_at (promisePool ([] :: string task list) 2) = 0"
  by (simp add: pool_defs)

lemma pool_five_tasks_run:
  "promisePool [succeeding 50 ''A'', succeeding 300 ''B'', succeeding 200 ''C'',
                succeeding 200 ''D'', succeeding 200 ''E''] 3 =
     \<lparr>returned_at = 300,
      returned = Inr [Some ''A'', Some ''B'', Some ''C'', Some ''D'', Some ''E''],
      created =
        [\<lparr>p_index = 0, p_started = 0, p_settles = 50, p_value = Inr ''A''\<rparr>,
         \<lparr>p_index = 1, p_started = 0, p_settles = 300, p_value = Inr ''B''\<rparr>,
         \<lparr>p_index = 2, p_started = 0, p_settles = 200, p_value = Inr ''C''\<rparr>,
         \<lparr>p_index = 3, p_started = 50, p_settles = 250, p_value = Inr ''D''\<rparr>,
         \<lparr>p_index = 4, p_started = 50, p_settles = 250, p_value = Inr ''E''\<rparr>]\<rparr>"
  by (simp add: pool_defs)

text \<open>
  Claim C2 asks that no more than \<open>L\<close> tasks are ever started and unsettled. The loop
  removes from \<^verbatim>\<open>executing\<close> the promise it has just pushed, not the one that won the
  race, so a settled promise stays in the array and every later race is won at once. With
  five tasks of 50, 300, 200, 200 and 200 time units and a limit of 3, the tasks are started
  at times 0, 0, 0, 50 and 50, the pool returns at time 300, and at time 60 four tasks are
  running.
\<close>

theorem pool_runs_four_under_limit_three:
  "map p_started
     (created (promisePool [succeeding 50 ''A'', succeeding 300 ''B'', succeeding 200 ''C'',
                            succeeding 200 ''D'', succeeding 200 ''E''] 3)) = [0, 0, 0, 50, 50] \<and>
   returned_at
     (promisePool [succeeding 50 ''A'', succeeding 300 ''B'', succeeding 200 ''C'',
                   succeeding 200 ''D'', succeeding 200 ''E''] 3) = 300 \<and>
   running_at 60
     (created (promisePool [succeeding 50 ''A'', succeeding 300 ''B'', succeeding 200 ''C'',
                            succeeding 200 ''D'', succeeding 200 ''E''] 3)) = 4 \<and>
   \<not> running_at 60
       (created (promisePool [succeeding 50 ''A'', succeeding 300 ''B'', succeeding 200 ''C'',
                              succeeding 200 ''D'', succeeding 200 ''E''] 3)) \<le> 3"
  by (simp add: pool_five_tasks_run running_at_def)

lemma pool_two_tasks_run:
  "promisePool [succeeding 50 ''A'', succeeding 200 ''B''] 2 =
     \<lparr>returned_at = 50, returned = Inr [Some ''A''],
      created =
        [\<lparr>p_index = 0, p_started = 0, p_settles = 50, p_value = Inr ''A''\<rparr>,
         \<lparr>p_index = 1, p_started = 0, p_settles = 200, p_value = Inr ''B''\<rparr>]\<rparr>"
  by (simp add: pool_defs)

text \<open>
  Claim C4 asks for one result per task, in input order. With two succeeding tasks of 50 and
  200 time units and a limit of 2, the second promise is removed from \<^verbatim>\<open>executing\<close> when
  the first one wins the race, \<^verbatim>\<open>Promise.all\<close> waits for the first alone, and the pool
  returns at time 50 an array of length 1: the second task's result is not in it.
\<close>

theorem pool_returns_before_last_task:
  "returned (promisePool [succeeding 50 ''A'', succeeding 200 ''B''] 2) = Inr [Some ''A''] \<and>
   returned_at (promisePool [succeeding 50 ''A'', succeeding 200 ''B''] 2) = 50 \<and>
   map p_settles (created (promisePool [succeeding 50 ''A'', succeeding 200 ''B''] 2)) =
     [50, 200]"
  by (simp add: pool_two_tasks_run)

text \<open>
  Two tasks that settle at the same time under a limit of 2: the pool returns after the
  first callback, before the second task's result is written. With three tasks of equal
  duration and a limit above their number, the pool waits for all three.
\<close>

lemma pool_same_instant_example:
  "returned (promisePool [succeeding 50 ''A'', succeeding 50 ''B''] 2) = Inr [Some ''A''] \<and>
   returned_at (promisePool [succeeding 50 ''A'', succeeding 50 ''B''] 2) = 50 \<and>
   returned (promisePool [succeeding 50 ''A'', succeeding 50 ''B'', succeeding 50 ''C''] 4) =
     Inr [Some ''A'', Some ''B'', Some ''C'']"
  by (simp add: pool_defs)

end
